theory Spec2Isabelle
  imports Complex_Main "HOL-Library.Char_ord" "HOL-Library.List_Lexorder"
begin

section \<open>The native media engine, as the controller sees it\<close>

text \<open>
  \<^verbatim>\<open>player.py\<close> delegates every sound-producing action to python-vlc. The controller
  only observes, for each call it makes, whether the call raised or returned, and what
  it returned. A call of the engine is therefore answered by a \<open>reply\<close>; the record
  \<open>engine\<close> fixes the answers the engine gives to the calls of one controller method.
  Each controller method returns, besides its Python result and the updated object,
  the list of engine calls it issued, in order.
\<close>

type_synonym handle = nat

type_synonym media = nat

text \<open>A \<^verbatim>\<open>pathlib\<close> path, as the tuple of its parts (\<^verbatim>\<open>PurePath.parts\<close>).\<close>

type_synonym path = "string list"

datatype 'a reply = Raise | Return 'a

datatype engine_call =
    Instance_new
  | Media_player_new
  | Media_new path
  | Set_media media
  | Player_play
  | Player_pause
  | Player_stop
  | Get_media
  | Media_get_duration media
  | Get_time
  | Player_set_position real

record engine =
  vlc_Instance :: "handle option reply"
  media_player_new :: "handle reply"
  media_new :: "path \<Rightarrow> media reply"
  set_media :: "media \<Rightarrow> unit reply"
  player_play :: "unit reply"
  player_pause :: "unit reply"
  player_stop :: "unit reply"
  get_media :: "media option reply"
  media_get_duration :: "media \<Rightarrow> int reply"
  get_time :: "int reply"
  player_set_position :: "real \<Rightarrow> unit reply"

section \<open>The playback controller: class \<^verbatim>\<open>MusicPlayer\<close>\<close>

text \<open>
  The five attributes set by \<^verbatim>\<open>__init__\<close>. Python's \<^verbatim>\<open>None\<close> is \<open>None\<close>; an engine
  object is \<open>Some h\<close> and is truthy. The attribute \<^verbatim>\<open>instance\<close> is named
  \<open>instance_obj\<close> here.
\<close>

record MusicPlayer =
  instance_obj :: "handle option"
  player :: "handle option"
  current_file :: "path option"
  is_playing :: bool
  is_paused :: bool

type_synonym 'a outcome = "'a \<times> MusicPlayer \<times> engine_call list"

definition MusicPlayer_init :: MusicPlayer where
  "MusicPlayer_init =
     \<lparr>instance_obj = None, player = None, current_file = None,
      is_playing = False, is_paused = False\<rparr>"

text \<open>
  \<^verbatim>\<open>initialize\<close>: both assignments sit in one \<^verbatim>\<open>try\<close>. When \<^verbatim>\<open>vlc.Instance()\<close> returns
  \<^verbatim>\<open>None\<close>, the attribute access \<^verbatim>\<open>self.instance.media_player_new\<close> raises
  \<^verbatim>\<open>AttributeError\<close> before the engine is called again. The handler sets both attributes
  to \<^verbatim>\<open>None\<close>.
\<close>

definition initialize :: "engine \<Rightarrow> MusicPlayer \<Rightarrow> bool outcome" where
  "initialize eng mp =
     (case vlc_Instance eng of
        Raise \<Rightarrow> (False, mp\<lparr>instance_obj := None, player := None\<rparr>, [Instance_new])
      | Return None \<Rightarrow> (False, mp\<lparr>instance_obj := None, player := None\<rparr>, [Instance_new])
      | Return (Some i) \<Rightarrow>
          (case media_player_new eng of
             Raise \<Rightarrow>
               (False, mp\<lparr>instance_obj := None, player := None\<rparr>,
                [Instance_new, Media_player_new])
           | Return p \<Rightarrow>
               (True, mp\<lparr>instance_obj := Some i, player := Some p\<rparr>,
                [Instance_new, Media_player_new])))"

definition load_track :: "engine \<Rightarrow> path \<Rightarrow> MusicPlayer \<Rightarrow> bool outcome" where
  "load_track eng file_path mp =
     (if instance_obj mp = None \<or> player mp = None then (False, mp, [])
      else
        (case media_new eng file_path of
           Raise \<Rightarrow> (False, mp, [Media_new file_path])
         | Return m \<Rightarrow>
             (case set_media eng m of
                Raise \<Rightarrow> (False, mp, [Media_new file_path, Set_media m])
              | Return _ \<Rightarrow>
                  (True, mp\<lparr>current_file := Some file_path\<rparr>,
                   [Media_new file_path, Set_media m]))))"

definition play :: "engine \<Rightarrow> MusicPlayer \<Rightarrow> bool outcome" where
  "play eng mp =
     (if player mp = None then (False, mp, [])
      else
        (case player_play eng of
           Raise \<Rightarrow> (False, mp, [Player_play])
         | Return _ \<Rightarrow> (True, mp\<lparr>is_playing := True, is_paused := False\<rparr>, [Player_play])))"

definition pause :: "engine \<Rightarrow> MusicPlayer \<Rightarrow> bool outcome" where
  "pause eng mp =
     (if player mp = None then (False, mp, [])
      else
        (case player_pause eng of
           Raise \<Rightarrow> (False, mp, [Player_pause])
         | Return _ \<Rightarrow> (True, mp\<lparr>is_paused := True\<rparr>, [Player_pause])))"

definition resume :: "engine \<Rightarrow> MusicPlayer \<Rightarrow> bool outcome" where
  "resume eng mp =
     (if player mp = None then (False, mp, [])
      else
        (case player_play eng of
           Raise \<Rightarrow> (False, mp, [Player_play])
         | Return _ \<Rightarrow> (True, mp\<lparr>is_paused := False\<rparr>, [Player_play])))"

definition stop :: "engine \<Rightarrow> MusicPlayer \<Rightarrow> bool outcome" where
  "stop eng mp =
     (if player mp = None then (False, mp, [])
      else
        (case player_stop eng of
           Raise \<Rightarrow> (False, mp, [Player_stop])
         | Return _ \<Rightarrow> (True, mp\<lparr>is_playing := False, is_paused := False\<rparr>, [Player_stop])))"

text \<open>
  The two queries. A call of a query either raises or returns, so its outcome is a
  \<open>reply\<close> as well. The body of each \<^verbatim>\<open>try\<close> is a function of its own, with an
  exception as the value \<open>Raise\<close>: with \<^verbatim>\<open>self.player\<close> unset, the attribute access on
  \<^verbatim>\<open>None\<close> raises \<^verbatim>\<open>AttributeError\<close>. In \<^verbatim>\<open>get_duration\<close> the body falls through
  (\<open>Return None\<close>) when the player holds no media. The handlers catch every
  \<^verbatim>\<open>Exception\<close>.
\<close>

definition get_duration_body :: "engine \<Rightarrow> MusicPlayer \<Rightarrow> int option reply" where
  "get_duration_body eng mp =
     (case player mp of
        None \<Rightarrow> Raise
      | Some _ \<Rightarrow>
          (case get_media eng of
             Raise \<Rightarrow> Raise
           | Return None \<Rightarrow> Return None
           | Return (Some m) \<Rightarrow>
               (case media_get_duration eng m of
                  Raise \<Rightarrow> Raise
                | Return d \<Rightarrow> Return (Some d))))"

definition get_duration :: "engine \<Rightarrow> MusicPlayer \<Rightarrow> int reply" where
  "get_duration eng mp =
     (case get_duration_body eng mp of
        Return (Some d) \<Rightarrow> Return d
      | Return None \<Rightarrow> Return (- 1)
      | Raise \<Rightarrow> Return (- 1))"

definition get_current_time_body :: "engine \<Rightarrow> MusicPlayer \<Rightarrow> int reply" where
  "get_current_time_body eng mp =
     (case player mp of
        None \<Rightarrow> Raise
      | Some _ \<Rightarrow> get_time eng)"

definition get_current_time :: "engine \<Rightarrow> MusicPlayer \<Rightarrow> int reply" where
  "get_current_time eng mp =
     (case get_current_time_body eng mp of
        Return t \<Rightarrow> Return t
      | Raise \<Rightarrow> Return (- 1))"

text \<open>
  \<^verbatim>\<open>set_position\<close>: a Python float is a real number here (every finite float is one,
  and \<^verbatim>\<open>min\<close> and \<^verbatim>\<open>max\<close> only compare), so \<^verbatim>\<open>float(position)\<close> is the identity.
\<close>

definition set_position :: "engine \<Rightarrow> real \<Rightarrow> MusicPlayer \<Rightarrow> bool outcome" where
  "set_position eng position mp =
     (if player mp = None then (False, mp, [])
      else
        (let target = max 0 (min 1 position) in
         case player_set_position eng target of
           Raise \<Rightarrow> (False, mp, [Player_set_position target])
         | Return _ \<Rightarrow> (True, mp, [Player_set_position target])))"

text \<open>Reading the three components of what a method call produced.\<close>

definition result :: "'a outcome \<Rightarrow> 'a" where
  "result r = fst r"

definition after :: "'a outcome \<Rightarrow> MusicPlayer" where
  "after r = fst (snd r)"

definition calls :: "'a outcome \<Rightarrow> engine_call list" where
  "calls r = snd (snd r)"

text \<open>Both engine objects are held: what a successful \<^verbatim>\<open>initialize\<close> establishes.\<close>

definition initialized :: "MusicPlayer \<Rightarrow> bool" where
  "initialized mp \<longleftrightarrow> instance_obj mp \<noteq> None \<and> player mp \<noteq> None"

text \<open>The engine accepts every call that load, play, pause, resume and stop make for a track.\<close>

definition accepts :: "engine \<Rightarrow> path \<Rightarrow> bool" where
  "accepts eng t \<longleftrightarrow>
     (case media_new eng t of Raise \<Rightarrow> False | Return m \<Rightarrow> set_media eng m \<noteq> Raise) \<and>
     player_play eng \<noteq> Raise \<and> player_pause eng \<noteq> Raise \<and> player_stop eng \<noteq> Raise"

text \<open>
  A client of the controller issues one method call after the other, as the handlers
  \<^verbatim>\<open>on_play\<close>, \<^verbatim>\<open>on_pause\<close>, \<^verbatim>\<open>on_resume\<close>, \<^verbatim>\<open>on_stop\<close> and \<^verbatim>\<open>_on_slider_move\<close> of
  \<^verbatim>\<open>player_gui.py\<close> do. Each step comes with the engine's answers at that moment.
\<close>

datatype command = Load path | Play | Pause | Resume | Stop | SetPosition real

fun exec :: "engine \<Rightarrow> command \<Rightarrow> MusicPlayer \<Rightarrow> bool outcome" where
  "exec eng (Load f) mp = load_track eng f mp"
| "exec eng Play mp = play eng mp"
| "exec eng Pause mp = pause eng mp"
| "exec eng Resume mp = resume eng mp"
| "exec eng Stop mp = stop eng mp"
| "exec eng (SetPosition x) mp = set_position eng x mp"

fun exec_all :: "(engine \<times> command) list \<Rightarrow> MusicPlayer \<Rightarrow> bool list outcome" where
  "exec_all [] mp = ([], mp, [])"
| "exec_all ((eng, c) # steps) mp =
     (case exec eng c mp of
        (ok, mp', cs) \<Rightarrow>
          (case exec_all steps mp' of
             (oks, mp'', cs') \<Rightarrow> (ok # oks, mp'', cs @ cs')))"

section \<open>The track catalog: \<^verbatim>\<open>list_tracks\<close>\<close>

text \<open>
  What the file system holds at a path: a file, a directory with its entries in the
  order a listing yields them (which the operating system chooses), or a directory
  that exists but cannot be listed (for lack of the permission to read it). \<open>None\<close>
  stands for a path that does not exist.
\<close>

datatype node = File | Directory "(string \<times> node) list" | Locked_Directory

text \<open>
  \<^verbatim>\<open>Path\<close> is \<^verbatim>\<open>PosixPath\<close> or \<^verbatim>\<open>WindowsPath\<close>, depending on the platform the program
  runs on. The two differ in how paths compare: \<^verbatim>\<open>PurePath.__lt__\<close> compares the parts
  as they are on POSIX, and the lower-cased parts on Windows.
\<close>

datatype flavour = Posix | Windows

text \<open>
  \<^verbatim>\<open>str.lower\<close>, as it acts on ASCII: the letters A to Z move to a to z, every other
  character stays. A name is the sequence of the bytes of its UTF-8 encoding, whose
  order is the order of the code points. No character outside A to Z lower-cases to a
  letter of the three extensions, so the membership test of \<^verbatim>\<open>list_tracks\<close> is decided as
  in Python for every name. The order of two Windows paths, which lower-cases every
  cased letter, is the one of the program for ASCII names only (\<open>is_ascii\<close>).
\<close>

definition lower_char :: "char \<Rightarrow> char" where
  "lower_char c =
     (if CHR ''A'' \<le> c \<and> c \<le> CHR ''Z'' then char_of (of_char c + (32::nat)) else c)"

definition lower :: "string \<Rightarrow> string" where
  "lower s = map lower_char s"


text \<open>\<^verbatim>\<open>str.rfind\<close>: the highest index at which the character occurs, or -1.\<close>

definition rfind :: "string \<Rightarrow> char \<Rightarrow> int" where
  "rfind s c =
     (case filter (\<lambda>i. s ! i = c) (rev [0..<length s]) of
        [] \<Rightarrow> - 1
      | i # _ \<Rightarrow> int i)"

text \<open>\<^verbatim>\<open>PurePath.name\<close>: the final part, or the empty string when there is none.\<close>

definition name :: "path \<Rightarrow> string" where
  "name p = (if p = [] then [] else last p)"

text \<open>
  \<^verbatim>\<open>PurePath.suffix\<close>: with \<^verbatim>\<open>i = name.rfind('.')\<close>, the slice \<^verbatim>\<open>name[i:]\<close> when
  \<^verbatim>\<open>0 < i < len(name) - 1\<close>, and the empty string otherwise.
\<close>

definition suffix :: "path \<Rightarrow> string" where
  "suffix p =
     (let nm = name p; i = rfind nm CHR ''.''
      in if 0 < i \<and> i < int (length nm) - 1 then drop (nat i) nm else [])"

definition VALID_EXTENSIONS :: "string set" where
  "VALID_EXTENSIONS = {''.mp3'', ''.wav'', ''.ogg''}"

text \<open>The key by which two paths of one flavour are compared.\<close>

definition cparts :: "flavour \<Rightarrow> path \<Rightarrow> string list" where
  "cparts fl p = (case fl of Posix \<Rightarrow> p | Windows \<Rightarrow> map lower p)"

text \<open>
  \<^verbatim>\<open>Path.exists\<close>, \<^verbatim>\<open>Path.is_dir\<close> and \<^verbatim>\<open>Path.iterdir\<close>. A listing yields one child
  path for each entry, files and directories alike. \<^verbatim>\<open>iterdir\<close> raises
  \<^verbatim>\<open>FileNotFoundError\<close> on a missing path, \<^verbatim>\<open>NotADirectoryError\<close> on a file and
  \<^verbatim>\<open>PermissionError\<close> on a directory that cannot be listed.
\<close>

definition path_exists :: "node option \<Rightarrow> bool" where
  "path_exists nd \<longleftrightarrow> nd \<noteq> None"

definition is_dir :: "node option \<Rightarrow> bool" where
  "is_dir nd \<longleftrightarrow>
     (case nd of
        None \<Rightarrow> False
      | Some File \<Rightarrow> False
      | Some (Directory _) \<Rightarrow> True
      | Some Locked_Directory \<Rightarrow> True)"

definition child_paths :: "path \<Rightarrow> (string \<times> node) list \<Rightarrow> path list" where
  "child_paths d es = map (\<lambda>(n, _). d @ [n]) es"

definition iterdir :: "path \<Rightarrow> node option \<Rightarrow> path list reply" where
  "iterdir d nd =
     (case nd of
        None \<Rightarrow> Raise
      | Some File \<Rightarrow> Raise
      | Some (Directory es) \<Rightarrow> Return (child_paths d es)
      | Some Locked_Directory \<Rightarrow> Raise)"

text \<open>
  \<^verbatim>\<open>sorted\<close> on a list of paths: a stable sort by \<^verbatim>\<open>__lt__\<close>, as \<open>sort_key\<close> is by the
  key.
\<close>

definition sorted_paths :: "flavour \<Rightarrow> path list \<Rightarrow> path list" where
  "sorted_paths fl ps = sort_key (cparts fl) ps"

text \<open>
  \<^verbatim>\<open>list_tracks\<close>. The second argument is the folder's path, the third what the file
  system holds there. The function has no handler, so an error of \<^verbatim>\<open>iterdir\<close> is the
  outcome of the call. The message printed for a missing folder is not modelled.
\<close>

definition list_tracks :: "flavour \<Rightarrow> path \<Rightarrow> node option \<Rightarrow> path list reply" where
  "list_tracks fl music_folder nd =
     (if \<not> path_exists nd \<or> \<not> is_dir nd then Return []
      else
        (case iterdir music_folder nd of
           Raise \<Rightarrow> Raise
         | Return fs \<Rightarrow>
             Return (sorted_paths fl [f \<leftarrow> fs. lower (suffix f) \<in> VALID_EXTENSIONS])))"

text \<open>The list that lines 29 and 30 build from a listing with the entries \<open>es\<close>.\<close>

definition tracks_of :: "flavour \<Rightarrow> path \<Rightarrow> (string \<times> node) list \<Rightarrow> path list" where
  "tracks_of fl d es =
     sort_key (cparts fl) [f \<leftarrow> child_paths d es. lower (suffix f) \<in> VALID_EXTENSIONS]"

text \<open>
  The catalog as the specification words it. A name has a recognised extension when it
  is a non-empty stem, a dot and an extension that, compared without regard to case, is
  one of mp3, wav and ogg. The catalog of a directory is the set of its files (and only
  files) with such a name.
\<close>

definition recognised_extension :: "string \<Rightarrow> bool" where
  "recognised_extension n \<longleftrightarrow>
     (\<exists>stem ext. n = stem @ CHR ''.'' # ext \<and> stem \<noteq> [] \<and>
        lower ext \<in> {''mp3'', ''wav'', ''ogg''})"


text \<open>The same for entries of either kind.\<close>

definition recognised_entries :: "path \<Rightarrow> (string \<times> node) list \<Rightarrow> path set" where
  "recognised_entries d es = {d @ [n] |n k. (n, k) \<in> set es \<and> recognised_extension n}"

subsection \<open>Concrete engines and controllers\<close>

definition accepting_engine :: engine where
  "accepting_engine =
     \<lparr>vlc_Instance = Return (Some 1), media_player_new = Return 2,
      media_new = (\<lambda>_. Return 3), set_media = (\<lambda>_. Return ()),
      player_play = Return (), player_pause = Return (), player_stop = Return (),
      get_media = Return (Some 3), media_get_duration = (\<lambda>_. Return 180000),
      get_time = Return 2000, player_set_position = (\<lambda>_. Return ())\<rparr>"

definition missing_engine :: engine where
  "missing_engine = accepting_engine\<lparr>vlc_Instance := Raise\<rparr>"

definition ready_player :: MusicPlayer where
  "ready_player =
     \<lparr>instance_obj = Some 1, player = Some 2, current_file = None,
      is_playing = False, is_paused = False\<rparr>"

definition playing_player :: MusicPlayer where
  "playing_player =
     \<lparr>instance_obj = Some 1, player = Some 2, current_file = Some [''music'', ''a.mp3''],
      is_playing = True, is_paused = False\<rparr>"

section \<open>Properties of the playback controller\<close>

lemmas outcome_defs = result_def after_def calls_def

lemma initialize_True_initialized:
  "initialize eng mp0 = (True, mp, cs) \<Longrightarrow> initialized mp"
  by (auto simp: initialize_def initialized_def split: reply.splits option.splits)

lemma initialize_False_no_player:
  "initialize eng mp0 = (False, mp, cs) \<Longrightarrow> instance_obj mp = None \<and> player mp = None"
  by (auto simp: initialize_def split: reply.splits option.splits)

lemma exec_no_player:
  "player mp = None \<Longrightarrow> exec eng c mp = (False, mp, [])"
  by (cases c) (simp_all add: load_track_def play_def pause_def resume_def stop_def set_position_def)

lemma exec_all_no_player:
  "player mp = None \<Longrightarrow> exec_all steps mp = (replicate (length steps) False, mp, [])"
proof (induction steps)
  case Nil
  show ?case by simp
next
  case (Cons s steps)
  obtain eng c where s: "s = (eng, c)" by (cases s)
  from Cons show ?case by (simp add: s exec_no_player)
qed

lemma ready_player_initialized: "initialized ready_player"
  by (simp add: initialized_def ready_player_def)

lemma playing_player_initialized: "initialized playing_player"
  by (simp add: initialized_def playing_player_def)

lemma accepting_engine_accepts: "accepts accepting_engine t"
  by (simp add: accepts_def accepting_engine_def)

lemma load_track_accepted:
  "initialized mp \<Longrightarrow> accepts eng t \<Longrightarrow>
     \<exists>m. load_track eng t mp = (True, mp\<lparr>current_file := Some t\<rparr>, [Media_new t, Set_media m])"
  by (cases "media_new eng t")
    (auto simp: accepts_def initialized_def load_track_def split: reply.splits)

lemma play_accepted:
  "player mp \<noteq> None \<Longrightarrow> player_play eng \<noteq> Raise \<Longrightarrow>
     play eng mp = (True, mp\<lparr>is_playing := True, is_paused := False\<rparr>, [Player_play])"
  by (cases "player_play eng") (simp_all add: play_def)

lemma pause_accepted:
  "player mp \<noteq> None \<Longrightarrow> player_pause eng \<noteq> Raise \<Longrightarrow>
     pause eng mp = (True, mp\<lparr>is_paused := True\<rparr>, [Player_pause])"
  by (cases "player_pause eng") (simp_all add: pause_def)

lemma resume_accepted:
  "player mp \<noteq> None \<Longrightarrow> player_play eng \<noteq> Raise \<Longrightarrow>
     resume eng mp = (True, mp\<lparr>is_paused := False\<rparr>, [Player_play])"
  by (cases "player_play eng") (simp_all add: resume_def)

lemma stop_accepted:
  "player mp \<noteq> None \<Longrightarrow> player_stop eng \<noteq> Raise \<Longrightarrow>
     stop eng mp = (True, mp\<lparr>is_playing := False, is_paused := False\<rparr>, [Player_stop])"
  by (cases "player_stop eng") (simp_all add: stop_def)

subsection \<open>Playing with no track loaded\<close>

text \<open>
  C1, as amended. \<^verbatim>\<open>play\<close> never looks at \<^verbatim>\<open>current_file\<close>. On a controller that holds
  both engine objects and has no track loaded, \<^verbatim>\<open>play()\<close> issues the engine's play call;
  it returns failure exactly when that call raises, and the controller is then unchanged.
  When the engine accepts the call, \<^verbatim>\<open>play()\<close> returns success and sets playing to true
  and paused to false, although no track is loaded.
\<close>
theorem play_without_track:
  "initialized mp \<Longrightarrow> current_file mp = None \<Longrightarrow>
     play eng mp =
       (if player_play eng = Raise then (False, mp, [Player_play])
        else (True, mp\<lparr>is_playing := True, is_paused := False\<rparr>, [Player_play])) \<and>
     (result (play eng mp) \<or> after (play eng mp) = mp)"
  by (auto simp: play_def initialized_def outcome_defs split: reply.splits)

theorem play_without_track_witness:
  "initialized ready_player \<and> current_file ready_player = None \<and>
   play accepting_engine ready_player =
     (True, ready_player\<lparr>is_playing := True, is_paused := False\<rparr>, [Player_play]) \<and>
   play (accepting_engine\<lparr>player_play := Raise\<rparr>) ready_player =
     (False, ready_player, [Player_play])"
  using play_without_track [of ready_player accepting_engine]
    play_without_track [of ready_player "accepting_engine\<lparr>player_play := Raise\<rparr>"]
  by (simp add: ready_player_initialized) (simp add: ready_player_def accepting_engine_def)

theorem play_without_track_counterexample:
  "initialize accepting_engine MusicPlayer_init =
     (True, ready_player, [Instance_new, Media_player_new]) \<and>
   current_file ready_player = None \<and>
   result (play accepting_engine ready_player) \<and>
   after (play accepting_engine ready_player) \<noteq> ready_player"
  by (simp add: initialize_def accepting_engine_def MusicPlayer_init_def ready_player_def
      play_def outcome_defs)

subsection \<open>When pausing fails\<close>

text \<open>
  C2, as amended. \<^verbatim>\<open>pause()\<close> returns failure exactly when the controller holds no player
  object or the engine's pause call raises; the controller is then unchanged. It succeeds
  from every other state, playing or not, sets the paused flag and leaves the playing
  flag as it was.
\<close>
theorem pause_fails_iff:
  "(result (pause eng mp) \<longleftrightarrow> player mp \<noteq> None \<and> player_pause eng \<noteq> Raise) \<and>
   (result (pause eng mp) \<longrightarrow> after (pause eng mp) = mp\<lparr>is_paused := True\<rparr>) \<and>
   (\<not> result (pause eng mp) \<longrightarrow> after (pause eng mp) = mp) \<and>
   is_playing (after (pause eng mp)) = is_playing mp"
  by (auto simp: pause_def outcome_defs split: reply.splits)

theorem pause_fails_iff_witness:
  "result (pause accepting_engine playing_player) \<and>
   after (pause accepting_engine playing_player) = playing_player\<lparr>is_paused := True\<rparr> \<and>
   \<not> result (pause accepting_engine MusicPlayer_init) \<and>
   after (pause accepting_engine MusicPlayer_init) = MusicPlayer_init"
  using pause_fails_iff [of accepting_engine playing_player]
    pause_fails_iff [of accepting_engine MusicPlayer_init]
  by (simp add: playing_player_def accepting_engine_def MusicPlayer_init_def)

theorem pause_when_not_playing_counterexample:
  "initialize accepting_engine MusicPlayer_init =
     (True, ready_player, [Instance_new, Media_player_new]) \<and>
   \<not> is_playing ready_player \<and>
   result (pause accepting_engine ready_player) \<and>
   \<not> is_playing (after (stop accepting_engine playing_player)) \<and>
   result (pause accepting_engine (after (stop accepting_engine playing_player)))"
  by (simp add: initialize_def accepting_engine_def MusicPlayer_init_def ready_player_def
      playing_player_def pause_def stop_def outcome_defs)

subsection \<open>Loading a track\<close>

text \<open>
  C3, as amended. On a controller holding both engine objects, a successful
  \<^verbatim>\<open>load_track\<close> binds the given path as the current file, replacing any earlier one;
  the only engine calls it makes create the media and set it on the player, so it does
  not start playback; and it changes no other attribute: the playing and paused flags
  keep the values they had before the load.
\<close>
theorem load_track_success:
  "initialized mp \<Longrightarrow> result (load_track eng f mp) \<Longrightarrow>
     after (load_track eng f mp) = mp\<lparr>current_file := Some f\<rparr> \<and>
     current_file (after (load_track eng f mp)) = Some f \<and>
     (\<exists>m. calls (load_track eng f mp) = [Media_new f, Set_media m]) \<and>
     Player_play \<notin> set (calls (load_track eng f mp)) \<and>
     is_playing (after (load_track eng f mp)) = is_playing mp \<and>
     is_paused (after (load_track eng f mp)) = is_paused mp"
  by (auto simp: load_track_def initialized_def outcome_defs split: reply.splits)

theorem load_track_success_witness:
  "initialized playing_player \<and>
   result (load_track accepting_engine [''music'', ''b.mp3''] playing_player) \<and>
   current_file (after (load_track accepting_engine [''music'', ''b.mp3''] playing_player)) =
     Some [''music'', ''b.mp3''] \<and>
   calls (load_track accepting_engine [''music'', ''b.mp3''] playing_player) =
     [Media_new [''music'', ''b.mp3''], Set_media 3] \<and>
   is_playing (after (load_track accepting_engine [''music'', ''b.mp3''] playing_player)) \<and>
   \<not> is_paused (after (load_track accepting_engine [''music'', ''b.mp3''] playing_player))"
  using load_track_success [of playing_player accepting_engine "[''music'', ''b.mp3'']"]
  by (simp add: playing_player_initialized)
    (simp add: load_track_def playing_player_def accepting_engine_def outcome_defs)

theorem load_track_keeps_flags_counterexample:
  "after (play accepting_engine
     (after (load_track accepting_engine [''music'', ''a.mp3''] ready_player))) = playing_player \<and>
   initialized playing_player \<and>
   result (load_track accepting_engine [''music'', ''b.mp3''] playing_player) \<and>
   is_playing (after (load_track accepting_engine [''music'', ''b.mp3''] playing_player)) \<and>
   is_paused (after (load_track accepting_engine [''music'', ''b.mp3'']
     (after (pause accepting_engine playing_player))))"
  by (simp add: load_track_def play_def pause_def playing_player_def ready_player_def
      accepting_engine_def initialized_def outcome_defs)

subsection \<open>A full cycle\<close>

text \<open>
  C4. For every controller holding both engine objects and every track, when the engine
  accepts every call, load, play, pause, resume and stop in this order all succeed and end
  with the playing flag false, the paused flag false and the track still bound; a
  following \<^verbatim>\<open>play()\<close> succeeds.
\<close>
theorem full_cycle:
  "initialized mp0 \<Longrightarrow> accepts e1 t \<Longrightarrow> accepts e2 t \<Longrightarrow> accepts e3 t \<Longrightarrow>
   accepts e4 t \<Longrightarrow> accepts e5 t \<Longrightarrow> accepts e6 t \<Longrightarrow>
     result (exec_all [(e1, Load t), (e2, Play), (e3, Pause), (e4, Resume), (e5, Stop)] mp0) =
       [True, True, True, True, True] \<and>
     after (exec_all [(e1, Load t), (e2, Play), (e3, Pause), (e4, Resume), (e5, Stop)] mp0) =
       mp0\<lparr>current_file := Some t, is_playing := False, is_paused := False\<rparr> \<and>
     result (play e6
       (after (exec_all [(e1, Load t), (e2, Play), (e3, Pause), (e4, Resume), (e5, Stop)] mp0)))"
proof -
  assume init: "initialized mp0"
    and a1: "accepts e1 t" and a2: "accepts e2 t" and a3: "accepts e3 t"
    and a4: "accepts e4 t" and a5: "accepts e5 t" and a6: "accepts e6 t"
  from init have p: "player mp0 \<noteq> None"
    by (simp add: initialized_def)
  obtain m where s1: "load_track e1 t mp0 =
      (True, mp0\<lparr>current_file := Some t\<rparr>, [Media_new t, Set_media m])"
    using load_track_accepted [OF init a1] by blast
  have s2: "play e2 (mp0\<lparr>current_file := Some t\<rparr>) =
      (True, mp0\<lparr>current_file := Some t, is_playing := True, is_paused := False\<rparr>, [Player_play])"
    using p a2 by (simp add: play_accepted accepts_def)
  have s3: "pause e3 (mp0\<lparr>current_file := Some t, is_playing := True, is_paused := False\<rparr>) =
      (True, mp0\<lparr>current_file := Some t, is_playing := True, is_paused := True\<rparr>, [Player_pause])"
    using p a3 by (simp add: pause_accepted accepts_def)
  have s4: "resume e4 (mp0\<lparr>current_file := Some t, is_playing := True, is_paused := True\<rparr>) =
      (True, mp0\<lparr>current_file := Some t, is_playing := True, is_paused := False\<rparr>, [Player_play])"
    using p a4 by (simp add: resume_accepted accepts_def)
  have s5: "stop e5 (mp0\<lparr>current_file := Some t, is_playing := True, is_paused := False\<rparr>) =
      (True, mp0\<lparr>current_file := Some t, is_playing := False, is_paused := False\<rparr>, [Player_stop])"
    using p a5 by (simp add: stop_accepted accepts_def)
  have s6: "play e6 (mp0\<lparr>current_file := Some t, is_playing := False, is_paused := False\<rparr>) =
      (True, mp0\<lparr>current_file := Some t, is_playing := True, is_paused := False\<rparr>, [Player_play])"
    using p a6 by (simp add: play_accepted accepts_def)
  show ?thesis
    by (simp add: s1 s2 s3 s4 s5 s6 outcome_defs)
qed

theorem full_cycle_witness:
  "initialized ready_player \<and> accepts accepting_engine [''music'', ''a.mp3''] \<and>
   exec_all [(accepting_engine, Load [''music'', ''a.mp3'']), (accepting_engine, Play),
       (accepting_engine, Pause), (accepting_engine, Resume), (accepting_engine, Stop)]
     ready_player =
     ([True, True, True, True, True],
      ready_player\<lparr>current_file := Some [''music'', ''a.mp3'']\<rparr>,
      [Media_new [''music'', ''a.mp3''], Set_media 3, Player_play, Player_pause, Player_play,
       Player_stop]) \<and>
   result (play accepting_engine (ready_player\<lparr>current_file := Some [''music'', ''a.mp3'']\<rparr>))"
  using full_cycle [of ready_player accepting_engine "[''music'', ''a.mp3'']" accepting_engine
      accepting_engine accepting_engine accepting_engine accepting_engine]
  by (simp add: ready_player_initialized accepting_engine_accepts)
    (simp add: load_track_def play_def pause_def resume_def stop_def ready_player_def
      accepting_engine_def outcome_defs)

subsection \<open>After a failed initialisation\<close>

text \<open>
  C5. When \<^verbatim>\<open>initialize()\<close> has returned failure, each of load, play, pause, resume, stop
  and set-position returns failure, changes no attribute of the controller and makes no
  engine call, whatever the engine would answer, and so does every sequence of them; both
  queries return -1.
\<close>
theorem failed_initialize:
  "initialize eng0 mp0 = (False, mp, cs0) \<Longrightarrow>
     load_track eng f mp = (False, mp, []) \<and>
     play eng mp = (False, mp, []) \<and>
     pause eng mp = (False, mp, []) \<and>
     resume eng mp = (False, mp, []) \<and>
     stop eng mp = (False, mp, []) \<and>
     set_position eng x mp = (False, mp, []) \<and>
     exec_all steps mp = (replicate (length steps) False, mp, []) \<and>
     get_duration eng mp = Return (- 1) \<and>
     get_current_time eng mp = Return (- 1)"
proof -
  assume "initialize eng0 mp0 = (False, mp, cs0)"
  then have np: "player mp = None"
    by (simp add: initialize_False_no_player)
  then have "exec_all steps mp = (replicate (length steps) False, mp, [])"
    by (rule exec_all_no_player)
  with np show ?thesis
    by (simp add: load_track_def play_def pause_def resume_def stop_def set_position_def
        get_duration_def get_duration_body_def get_current_time_def get_current_time_body_def)
qed

theorem failed_initialize_witness:
  "initialize missing_engine MusicPlayer_init = (False, MusicPlayer_init, [Instance_new]) \<and>
   load_track accepting_engine [''music'', ''a.mp3''] MusicPlayer_init =
     (False, MusicPlayer_init, []) \<and>
   play accepting_engine MusicPlayer_init = (False, MusicPlayer_init, []) \<and>
   exec_all [(accepting_engine, Load [''music'', ''a.mp3'']), (accepting_engine, Play),
       (accepting_engine, SetPosition (1 / 2))] MusicPlayer_init =
     ([False, False, False], MusicPlayer_init, []) \<and>
   get_duration accepting_engine MusicPlayer_init = Return (- 1) \<and>
   get_current_time accepting_engine MusicPlayer_init = Return (- 1)"
proof -
  have init: "initialize missing_engine MusicPlayer_init =
      (False, MusicPlayer_init, [Instance_new])"
    by (simp add: initialize_def missing_engine_def accepting_engine_def MusicPlayer_init_def)
  from failed_initialize [OF init, of accepting_engine "[''music'', ''a.mp3'']" "1 / 2"
      "[(accepting_engine, Load [''music'', ''a.mp3'']), (accepting_engine, Play),
        (accepting_engine, SetPosition (1 / 2))]"] init
  show ?thesis by simp
qed

subsection \<open>Seeking\<close>

text \<open>
  C8. On a controller that holds a player object, \<^verbatim>\<open>set_position\<close> makes exactly one
  engine call, with the input clamped to the interval from 0 to 1: an input below 0 (such
  as -0.3) is forwarded as 0, one above 1 (such as 1.7) as 1, one in between (such as 0.5)
  unchanged. The call is made for every input, so the clamping never fails; the method's
  result only tells whether the engine raised.
\<close>
theorem set_position_clamps:
  "player mp \<noteq> None \<Longrightarrow>
     set_position eng x mp =
       (player_set_position eng (max 0 (min 1 x)) \<noteq> Raise, mp,
        [Player_set_position (max 0 (min 1 x))]) \<and>
     0 \<le> max 0 (min 1 x) \<and> max 0 (min 1 x) \<le> 1 \<and>
     (x < 0 \<longrightarrow> calls (set_position eng x mp) = [Player_set_position 0]) \<and>
     (1 < x \<longrightarrow> calls (set_position eng x mp) = [Player_set_position 1]) \<and>
     (0 \<le> x \<and> x \<le> 1 \<longrightarrow> calls (set_position eng x mp) = [Player_set_position x]) \<and>
     calls (set_position eng (- 3 / 10) mp) = [Player_set_position 0] \<and>
     calls (set_position eng (17 / 10) mp) = [Player_set_position 1] \<and>
     calls (set_position eng (1 / 2) mp) = [Player_set_position (1 / 2)]"
  by (auto simp: set_position_def Let_def outcome_defs split: reply.splits)

theorem set_position_clamps_witness:
  "player ready_player \<noteq> None \<and>
   set_position accepting_engine (17 / 10) ready_player =
     (True, ready_player, [Player_set_position 1]) \<and>
   calls (set_position accepting_engine (- 3 / 10) ready_player) = [Player_set_position 0] \<and>
   calls (set_position accepting_engine (1 / 2) ready_player) = [Player_set_position (1 / 2)]"
proof -
  have p: "player ready_player \<noteq> None"
    by (simp add: ready_player_def)
  from set_position_clamps [OF p, of accepting_engine "17 / 10"] p
  show ?thesis by (simp add: accepting_engine_def)
qed

subsection \<open>The queries never raise\<close>

text \<open>
  C9. In every controller state and for every behaviour of the engine, \<^verbatim>\<open>get_duration\<close>
  and \<^verbatim>\<open>get_current_time\<close> return and do not raise. They return -1 when the controller
  holds no player, when an engine call raises and, for the duration, when the player
  holds no media; otherwise they return the engine's value.
\<close>
theorem queries_never_raise:
  "get_duration eng mp \<noteq> Raise \<and> get_current_time eng mp \<noteq> Raise \<and>
   (player mp = None \<longrightarrow>
      get_duration eng mp = Return (- 1) \<and> get_current_time eng mp = Return (- 1)) \<and>
   (get_duration_body eng mp = Raise \<longrightarrow> get_duration eng mp = Return (- 1)) \<and>
   (get_media eng = Raise \<longrightarrow> get_duration eng mp = Return (- 1)) \<and>
   (get_media eng = Return None \<longrightarrow> get_duration eng mp = Return (- 1)) \<and>
   (get_media eng = Return (Some m) \<and> media_get_duration eng m = Raise \<longrightarrow>
      get_duration eng mp = Return (- 1)) \<and>
   (player mp \<noteq> None \<and> get_media eng = Return (Some m) \<and>
    media_get_duration eng m = Return d \<longrightarrow> get_duration eng mp = Return d) \<and>
   (get_current_time_body eng mp = Raise \<longrightarrow> get_current_time eng mp = Return (- 1)) \<and>
   (get_time eng = Raise \<longrightarrow> get_current_time eng mp = Return (- 1)) \<and>
   (player mp \<noteq> None \<and> get_time eng = Return t \<longrightarrow> get_current_time eng mp = Return t)"
  by (auto simp: get_duration_def get_duration_body_def get_current_time_def
      get_current_time_body_def split: reply.splits option.splits)

theorem queries_never_raise_witness:
  "get_duration accepting_engine MusicPlayer_init = Return (- 1) \<and>
   get_current_time accepting_engine MusicPlayer_init = Return (- 1) \<and>
   get_duration (accepting_engine\<lparr>get_media := Return None\<rparr>) ready_player = Return (- 1) \<and>
   get_current_time (accepting_engine\<lparr>get_time := Raise\<rparr>) ready_player = Return (- 1) \<and>
   get_duration accepting_engine playing_player = Return 180000 \<and>
   get_current_time accepting_engine playing_player = Return 2000"
  using queries_never_raise [of accepting_engine MusicPlayer_init]
    queries_never_raise [of "accepting_engine\<lparr>get_media := Return None\<rparr>" ready_player]
    queries_never_raise [of "accepting_engine\<lparr>get_time := Raise\<rparr>" ready_player]
    queries_never_raise [of accepting_engine playing_player 3 180000 2000]
  by (simp add: MusicPlayer_init_def ready_player_def playing_player_def accepting_engine_def)

subsection \<open>Paused without playing\<close>

text \<open>
  C10, as amended. On a controller holding both engine objects whose playing flag is
  false, for instance right after a successful \<^verbatim>\<open>initialize()\<close> on a new controller or
  after a successful \<^verbatim>\<open>stop()\<close>, a \<^verbatim>\<open>pause()\<close> whose engine call does not raise returns
  success and sets the paused flag while the playing flag stays false: the state paused
  and not playing is reachable, and no operation enforces that paused implies playing.
  When the engine's pause call raises, \<^verbatim>\<open>pause()\<close> returns failure and the controller is
  unchanged.
\<close>

theorem pause_while_not_playing:
  "(player_pause eng \<noteq> Raise \<longrightarrow>
     (initialized mp \<and> \<not> is_playing mp \<longrightarrow>
        pause eng mp = (True, mp\<lparr>is_paused := True\<rparr>, [Player_pause]) \<and>
        is_paused (after (pause eng mp)) \<and> \<not> is_playing (after (pause eng mp))) \<and>
     (initialize e0 MusicPlayer_init = (True, mp1, cs) \<longrightarrow>
        result (pause eng mp1) \<and>
        is_paused (after (pause eng mp1)) \<and> \<not> is_playing (after (pause eng mp1))) \<and>
     (initialized mp2 \<and> player_stop e1 \<noteq> Raise \<longrightarrow>
        result (stop e1 mp2) \<and> result (pause eng (after (stop e1 mp2))) \<and>
        is_paused (after (pause eng (after (stop e1 mp2)))) \<and>
        \<not> is_playing (after (pause eng (after (stop e1 mp2)))))) \<and>
   (player_pause eng = Raise \<and> initialized mp \<longrightarrow>
      pause eng mp = (False, mp, [Player_pause]))"
proof -
  have accepted: "player_pause eng \<noteq> Raise \<longrightarrow>
     (initialized mp \<and> \<not> is_playing mp \<longrightarrow>
        pause eng mp = (True, mp\<lparr>is_paused := True\<rparr>, [Player_pause]) \<and>
        is_paused (after (pause eng mp)) \<and> \<not> is_playing (after (pause eng mp))) \<and>
     (initialize e0 MusicPlayer_init = (True, mp1, cs) \<longrightarrow>
        result (pause eng mp1) \<and>
        is_paused (after (pause eng mp1)) \<and> \<not> is_playing (after (pause eng mp1))) \<and>
     (initialized mp2 \<and> player_stop e1 \<noteq> Raise \<longrightarrow>
        result (stop e1 mp2) \<and> result (pause eng (after (stop e1 mp2))) \<and>
        is_paused (after (pause eng (after (stop e1 mp2)))) \<and>
        \<not> is_playing (after (pause eng (after (stop e1 mp2)))))"
    by (auto simp: pause_def stop_def initialize_def MusicPlayer_init_def initialized_def
        outcome_defs split: reply.splits option.splits)
  have raised: "player_pause eng = Raise \<and> initialized mp \<longrightarrow>
      pause eng mp = (False, mp, [Player_pause])"
    by (simp add: pause_def initialized_def)
  from accepted raised show ?thesis by (rule conjI)
qed

theorem pause_while_not_playing_witness:
  "player_pause accepting_engine \<noteq> Raise \<and>
   initialize accepting_engine MusicPlayer_init =
     (True, ready_player, [Instance_new, Media_player_new]) \<and>
   result (pause accepting_engine ready_player) \<and>
   is_paused (after (pause accepting_engine ready_player)) \<and>
   \<not> is_playing (after (pause accepting_engine ready_player)) \<and>
   initialized playing_player \<and> player_stop accepting_engine \<noteq> Raise \<and>
   is_paused (after (pause accepting_engine (after (stop accepting_engine playing_player)))) \<and>
   \<not> is_playing (after (pause accepting_engine (after (stop accepting_engine playing_player)))) \<and>
   pause (accepting_engine\<lparr>player_pause := Raise\<rparr>) ready_player =
     (False, ready_player, [Player_pause])"
proof -
  have a: "player_pause accepting_engine \<noteq> Raise" "player_stop accepting_engine \<noteq> Raise"
    by (simp_all add: accepting_engine_def)
  have r: "player_pause (accepting_engine\<lparr>player_pause := Raise\<rparr>) = Raise"
    by simp
  have i: "initialize accepting_engine MusicPlayer_init =
      (True, ready_player, [Instance_new, Media_player_new])"
    by (simp add: initialize_def accepting_engine_def MusicPlayer_init_def ready_player_def)
  from pause_while_not_playing [of accepting_engine ready_player accepting_engine ready_player
      "[Instance_new, Media_player_new]" playing_player accepting_engine]
    pause_while_not_playing [of "accepting_engine\<lparr>player_pause := Raise\<rparr>" ready_player]
    a r i ready_player_initialized playing_player_initialized
  show ?thesis by (simp add: ready_player_def outcome_defs)
qed

theorem pause_raising_engine_counterexample:
  "initialize accepting_engine MusicPlayer_init =
     (True, ready_player, [Instance_new, Media_player_new]) \<and>
   \<not> is_playing ready_player \<and>
   \<not> result (pause (accepting_engine\<lparr>player_pause := Raise\<rparr>) ready_player) \<and>
   \<not> is_paused (after (pause (accepting_engine\<lparr>player_pause := Raise\<rparr>) ready_player))"
  by (simp add: initialize_def accepting_engine_def MusicPlayer_init_def ready_player_def
      pause_def outcome_defs)

section \<open>Properties of the track catalog\<close>


lemma suffix_child: "suffix (d @ [n]) = suffix [n]"
  by (simp add: suffix_def name_def)


lemma rev_filter_middle:
  "P a \<Longrightarrow> filter P zs = [] \<Longrightarrow> rev (filter P (ys @ a # zs)) = a # rev (filter P ys)"
  by simp

lemma rfind_absent:
  assumes "c \<notin> set s"
  shows "rfind s c = - 1"
proof -
  have "s ! i \<noteq> c" if "i \<in> set (rev [0..<length s])" for i
  proof -
    from that have "i < length s" by simp
    then have "s ! i \<in> set s" by (rule nth_mem)
    with assms show ?thesis by blast
  qed
  then have "filter (\<lambda>i. s ! i = c) (rev [0..<length s]) = []"
    by (simp only: filter_empty_conv) blast
  then show ?thesis by (simp only: rfind_def list.case)
qed

lemma rfind_last:
  assumes "c \<notin> set ys"
  shows "rfind (xs @ c # ys) c = int (length xs)"
proof -
  let ?s = "xs @ c # ys"
  let ?n = "length xs"
  let ?u = "length xs + Suc (length ys)"
  have len: "length ?s = ?u" by simp
  have "[0..<?u] = [0..<?n] @ [?n..<?u]"
    by (rule upt_add_eq_append) simp
  moreover have "[?n..<?u] = ?n # [Suc ?n..<?u]"
    by (rule upt_conv_Cons) simp
  ultimately have upt: "[0..<length ?s] = [0..<?n] @ ?n # [Suc ?n..<?u]"
    by (simp only: len)
  have at: "?s ! ?n = c" by simp
  have tail: "filter (\<lambda>i. ?s ! i = c) [Suc ?n..<?u] = []"
  proof -
    have "?s ! i \<noteq> c" if "i \<in> set [Suc ?n..<?u]" for i
    proof -
      from that have 1: "Suc ?n \<le> i" and 2: "i - Suc ?n < length ys" by auto
      from 1 have "?s ! i = (c # ys) ! (i - ?n)"
        by (simp add: nth_append)
      also from 1 have "\<dots> = ys ! (i - Suc ?n)"
        by (simp add: nth_Cons')
      finally have "?s ! i = ys ! (i - Suc ?n)" .
      moreover from 2 have "ys ! (i - Suc ?n) \<in> set ys" by (rule nth_mem)
      ultimately show ?thesis using assms by auto
    qed
    then show ?thesis
      by (simp only: filter_empty_conv) blast
  qed
  have "filter (\<lambda>i. ?s ! i = c) (rev [0..<length ?s]) =
      rev (filter (\<lambda>i. ?s ! i = c) ([0..<?n] @ ?n # [Suc ?n..<?u]))"
    by (simp only: upt rev_filter)
  also have "\<dots> = ?n # rev (filter (\<lambda>i. ?s ! i = c) [0..<?n])"
    by (rule rev_filter_middle [OF at tail])
  finally show ?thesis by (simp only: rfind_def list.case)
qed

lemma suffix_split:
  assumes "CHR ''.'' \<notin> set ext"
  shows "suffix [stem @ CHR ''.'' # ext] =
     (if stem \<noteq> [] \<and> ext \<noteq> [] then CHR ''.'' # ext else [])"
  using assms by (auto simp: suffix_def name_def rfind_last Let_def)

lemma suffix_no_dot: "CHR ''.'' \<notin> set n \<Longrightarrow> suffix [n] = []"
  by (simp add: suffix_def name_def rfind_absent Let_def)

lemma lower_char_dot: "lower_char c = CHR ''.'' \<longleftrightarrow> c = CHR ''.''"
proof (cases "CHR ''A'' \<le> c \<and> c \<le> CHR ''Z''")
  case True
  then have r: "65 \<le> (of_char c :: nat)" "(of_char c :: nat) \<le> 90"
    by (simp_all add: less_eq_char_def)
  have "(of_char (lower_char c) :: nat) = (of_char c + 32) mod 256"
    using True by (simp add: lower_char_def)
  with r have "(of_char (lower_char c) :: nat) = of_char c + 32" by simp
  with r have "(of_char (lower_char c) :: nat) \<noteq> 46" by simp
  then have "lower_char c \<noteq> CHR ''.''" by auto
  moreover from r have "c \<noteq> CHR ''.''" by auto
  ultimately show ?thesis by simp
next
  case False
  then have "lower_char c = c" by (auto simp: lower_char_def)
  then show ?thesis by simp
qed

lemma dot_in_lower: "CHR ''.'' \<in> set (lower s) \<longleftrightarrow> CHR ''.'' \<in> set s"
proof
  assume "CHR ''.'' \<in> set (lower s)"
  then obtain c where c: "c \<in> set s" and "lower_char c = CHR ''.''"
    by (auto simp: lower_def)
  then have "c = CHR ''.''" by (simp add: lower_char_dot)
  with c show "CHR ''.'' \<in> set s" by simp
next
  assume "CHR ''.'' \<in> set s"
  then have "lower_char CHR ''.'' \<in> set (lower s)" by (simp add: lower_def)
  moreover have "lower_char CHR ''.'' = CHR ''.''" by (simp add: lower_char_dot)
  ultimately show "CHR ''.'' \<in> set (lower s)" by simp
qed

lemma lower_Cons_dot: "lower (CHR ''.'' # s) = CHR ''.'' # lower s"
  using lower_char_dot [of "CHR ''.''"] by (simp add: lower_def)

lemma lower_Nil_iff: "lower s = [] \<longleftrightarrow> s = []"
  by (simp add: lower_def)

lemma VALID_dot:
  "CHR ''.'' # e \<in> VALID_EXTENSIONS \<longleftrightarrow> e \<in> {''mp3'', ''wav'', ''ogg''}"
  by (simp add: VALID_EXTENSIONS_def)

lemma no_dot_in_ext: "e \<in> {''mp3'', ''wav'', ''ogg''} \<Longrightarrow> CHR ''.'' \<notin> set e \<and> e \<noteq> []"
  by auto

lemma Nil_not_VALID: "[] \<notin> VALID_EXTENSIONS"
  by (simp add: VALID_EXTENSIONS_def)

lemma suffix_recognised:
  "lower (suffix [n]) \<in> VALID_EXTENSIONS \<longleftrightarrow> recognised_extension n"
proof
  assume v: "lower (suffix [n]) \<in> VALID_EXTENSIONS"
  then have ne: "suffix [n] \<noteq> []"
    using Nil_not_VALID by (auto simp: lower_def)
  then have "CHR ''.'' \<in> set n"
    using suffix_no_dot by blast
  then obtain stem ext where n: "n = stem @ CHR ''.'' # ext" and nd: "CHR ''.'' \<notin> set ext"
    using split_list_last [of "CHR ''.''" n] by blast
  from ne have se: "stem \<noteq> [] \<and> ext \<noteq> []"
    unfolding n suffix_split [OF nd] by (simp split: if_splits)
  then have "suffix [n] = CHR ''.'' # ext"
    unfolding n suffix_split [OF nd] by simp
  with v have "lower ext \<in> {''mp3'', ''wav'', ''ogg''}"
    by (simp only: lower_Cons_dot VALID_dot)
  with n se show "recognised_extension n"
    unfolding recognised_extension_def by blast
next
  assume "recognised_extension n"
  then obtain stem ext where n: "n = stem @ CHR ''.'' # ext" and s: "stem \<noteq> []"
    and e: "lower ext \<in> {''mp3'', ''wav'', ''ogg''}"
    unfolding recognised_extension_def by blast
  from no_dot_in_ext [OF e] have nd: "CHR ''.'' \<notin> set ext" and ne: "ext \<noteq> []"
    by (simp_all only: dot_in_lower lower_Nil_iff simp_thms)
  have "suffix [n] = CHR ''.'' # ext"
    unfolding n suffix_split [OF nd] using s ne by simp
  with e show "lower (suffix [n]) \<in> VALID_EXTENSIONS"
    by (simp only: lower_Cons_dot VALID_dot)
qed

lemma list_tracks_listed:
  "list_tracks fl d (Some (Directory es)) = Return (tracks_of fl d es)"
  by (simp add: list_tracks_def path_exists_def is_dir_def iterdir_def sorted_paths_def
      tracks_of_def)


lemma set_list_tracks:
  "set (tracks_of fl d es) = recognised_entries d es"
  by (auto simp: tracks_of_def child_paths_def recognised_entries_def suffix_child
      suffix_recognised)

lemma sorted_list_tracks: "sorted (map (cparts fl) (tracks_of fl d es))"
  by (simp add: tracks_of_def)

lemma distinct_child_paths: "distinct (map fst es) \<Longrightarrow> distinct (child_paths d es)"
proof -
  assume "distinct (map fst es)"
  then have "distinct (map (\<lambda>n. d @ [n]) (map fst es))"
    by (simp add: distinct_map inj_on_def)
  moreover have "map (\<lambda>n. d @ [n]) (map fst es) = child_paths d es"
    by (simp add: child_paths_def case_prod_unfold comp_def)
  ultimately show ?thesis by simp
qed

lemma distinct_list_tracks:
  "distinct (map fst es) \<Longrightarrow> distinct (tracks_of fl d es)"
  by (simp add: tracks_of_def distinct_child_paths)


lemma two_sorted:
  assumes "distinct r" and "set r = {a, b}" and "sorted (map k r)" and "k a < k b"
  shows "r = [a, b]"
proof -
  from assms(4) have ne: "a \<noteq> b" by auto
  from assms(1,2) ne have "length r = 2"
    using distinct_card [of r] by simp
  then obtain x y where r: "r = [x, y]"
    by (auto simp: length_Suc_conv numeral_2_eq_2)
  with assms(2) have "x = a \<and> y = b \<or> x = b \<and> y = a"
    by (auto simp: doubleton_eq_iff)
  moreover from r assms(3) have "k x \<le> k y" by simp
  ultimately show ?thesis using r assms(4) by auto
qed

lemma posix_lt: "cparts Posix [''music'', ''B.WAV''] < cparts Posix [''music'', ''a.mp3'']" by code_simp
lemma windows_lt: "cparts Windows [''music'', ''a.mp3''] < cparts Windows [''music'', ''B.WAV'']" by code_simp









subsection \<open>What a scan of a directory returns\<close>




lemma ext_a: "recognised_extension ''a.mp3''"
proof -
  have "lower (suffix [''a.mp3'']) \<in> VALID_EXTENSIONS" by code_simp
  then show ?thesis unfolding suffix_recognised .
qed

lemma ext_B: "recognised_extension ''B.WAV''"
proof -
  have "lower (suffix [''B.WAV'']) \<in> VALID_EXTENSIONS" by code_simp
  then show ?thesis unfolding suffix_recognised .
qed

lemma ext_notes: "\<not> recognised_extension ''notes.txt''"
proof -
  have "lower (suffix [''notes.txt'']) \<notin> VALID_EXTENSIONS" by code_simp
  then show ?thesis unfolding suffix_recognised .
qed

lemma three_entries:
  "set es = {(a, ka), (b, kb), (c, kc)} \<Longrightarrow> P a \<Longrightarrow> P b \<Longrightarrow> \<not> P c \<Longrightarrow>
     {d @ [n] |n k. (n, k) \<in> set es \<and> P n} = {d @ [b], d @ [a]}"
  by auto

lemma music_entries:
  assumes s: "set es = {(''a.mp3'', File), (''B.WAV'', File), (''notes.txt'', File)}"
  shows "recognised_entries [''music''] es = {[''music'', ''B.WAV''], [''music'', ''a.mp3'']}"
proof -
  note t = three_entries [where P = recognised_extension
      and a = "''a.mp3''" and b = "''B.WAV''" and c = "''notes.txt''" and d = "[''music'']"
      and es = es and ka = File and kb = File and kc = File]
  have "{[''music''] @ [n] |n k. (n, k) \<in> set es \<and> recognised_extension n} =
      {[''music''] @ [''B.WAV''], [''music''] @ [''a.mp3'']}"
    by (rule t [OF s ext_a ext_B ext_notes])
  then show ?thesis
    by (simp only: recognised_entries_def append.simps)
qed

subsection \<open>The scan of the folder \<^verbatim>\<open>music\<close>\<close>

text \<open>
  C7, as amended. When the directory \<^verbatim>\<open>music\<close> holds exactly the files \<^verbatim>\<open>a.mp3\<close>,
  \<^verbatim>\<open>B.WAV\<close> and \<^verbatim>\<open>notes.txt\<close>, in whatever order the file system lists them,
  \<^verbatim>\<open>list_tracks\<close> returns the two paths of \<^verbatim>\<open>B.WAV\<close> and \<^verbatim>\<open>a.mp3\<close>. On POSIX
  \<^verbatim>\<open>B.WAV\<close> comes first, since the capital B sorts before the small a; on Windows, where
  paths compare without regard to case, \<^verbatim>\<open>a.mp3\<close> comes first.
\<close>

theorem music_scan:
  "distinct (map fst es) \<Longrightarrow>
   set es = {(''a.mp3'', File), (''B.WAV'', File), (''notes.txt'', File)} \<Longrightarrow>
     list_tracks Posix [''music''] (Some (Directory es)) =
       Return [[''music'', ''B.WAV''], [''music'', ''a.mp3'']] \<and>
     list_tracks Windows [''music''] (Some (Directory es)) =
       Return [[''music'', ''a.mp3''], [''music'', ''B.WAV'']]"
proof -
  assume d: "distinct (map fst es)"
    and s: "set es = {(''a.mp3'', File), (''B.WAV'', File), (''notes.txt'', File)}"
  have st: "set (tracks_of fl [''music''] es) =
      {[''music'', ''B.WAV''], [''music'', ''a.mp3'']}" for fl
    by (simp only: set_list_tracks music_entries [OF s])
  have st': "set (tracks_of fl [''music''] es) =
      {[''music'', ''a.mp3''], [''music'', ''B.WAV'']}" for fl
    by (simp only: st insert_commute)
  note p = two_sorted [where k = "cparts Posix" and a = "[''music'', ''B.WAV'']"
      and b = "[''music'', ''a.mp3'']" and r = "tracks_of Posix [''music''] es"]
  note w = two_sorted [where k = "cparts Windows" and a = "[''music'', ''a.mp3'']"
      and b = "[''music'', ''B.WAV'']" and r = "tracks_of Windows [''music''] es"]
  have "tracks_of Posix [''music''] es = [[''music'', ''B.WAV''], [''music'', ''a.mp3'']]"
    by (rule p [OF distinct_list_tracks [OF d] st sorted_list_tracks posix_lt])
  then have "list_tracks Posix [''music''] (Some (Directory es)) =
      Return [[''music'', ''B.WAV''], [''music'', ''a.mp3'']]"
    by (simp only: list_tracks_listed)
  moreover have "tracks_of Windows [''music''] es =
      [[''music'', ''a.mp3''], [''music'', ''B.WAV'']]"
    by (rule w [OF distinct_list_tracks [OF d] st' sorted_list_tracks windows_lt])
  then have "list_tracks Windows [''music''] (Some (Directory es)) =
      Return [[''music'', ''a.mp3''], [''music'', ''B.WAV'']]"
    by (simp only: list_tracks_listed)
  ultimately show ?thesis by (rule conjI)
qed

theorem music_scan_witness:
  "distinct (map fst [(''notes.txt'', File), (''a.mp3'', File), (''B.WAV'', File)]) \<and>
   list_tracks Posix [''music'']
     (Some (Directory [(''notes.txt'', File), (''a.mp3'', File), (''B.WAV'', File)])) =
     Return [[''music'', ''B.WAV''], [''music'', ''a.mp3'']] \<and>
   list_tracks Windows [''music'']
     (Some (Directory [(''notes.txt'', File), (''a.mp3'', File), (''B.WAV'', File)])) =
     Return [[''music'', ''a.mp3''], [''music'', ''B.WAV'']]"
proof -
  have d: "distinct (map fst [(''notes.txt'', File), (''a.mp3'', File), (''B.WAV'', File)])"
    by simp
  have s: "set [(''notes.txt'', File), (''a.mp3'', File), (''B.WAV'', File)] =
      {(''a.mp3'', File), (''B.WAV'', File), (''notes.txt'', File)}"
    by (simp add: insert_commute)
  from music_scan [OF d s] d show ?thesis by (simp only: simp_thms)
qed

theorem music_scan_counterexample:
  "list_tracks Posix [''music'']
     (Some (Directory [(''a.mp3'', File), (''B.WAV'', File), (''notes.txt'', File)])) \<noteq>
     Return [[''music'', ''a.mp3''], [''music'', ''B.WAV'']]"
  by code_simp

end
